theory Spec2Isabelle
  imports Main "HOL-Library.AList"
begin

section \<open>Data model of the language-server handler\<close>

text \<open>
  The development embeds the class \<^verbatim>\<open>Handler\<close> of the multi-path variant of the
  server (fields \<^verbatim>\<open>enable\<close>, \<^verbatim>\<open>configPaths\<close>, \<^verbatim>\<open>state\<close>, \<^verbatim>\<open>engineCache\<close>,
  \<^verbatim>\<open>validationCache\<close>). Protocol objects are records; every message the handler
  sends on its connection and every call it makes into the external rule library is
  appended to a trace, so that "nothing was sent" and "the engine was not invoked" are
  statements about that trace.

  Names of record fields that occur in several TypeScript interfaces carry a prefix here
  (\<open>rcp_uri\<close> for \<^verbatim>\<open>ReplaceCommandParams.uri\<close>, \<open>csc_version\<close> for
  \<^verbatim>\<open>ChangeSetCache.version\<close>, and so on). The arrow character of the message
  templates is written \<open>->\<close>.
\<close>

record position =
  line :: nat
  character :: nat

record lsp_range =
  range_start :: position
  range_end :: position

record textEdit =
  edit_range :: lsp_range
  edit_newText :: string

text \<open>
  A \<^verbatim>\<open>Diff\<close> of the rule library, as far as the handler reads it: \<open>newText\<close> may be
  null, and \<open>rule_raw_prh\<close> is the value of \<^verbatim>\<open>diff.rule.raw.prh\<close> when the whole
  chain \<^verbatim>\<open>diff.rule && diff.rule.raw && diff.rule.raw.prh\<close> is defined.
\<close>

record diff =
  index :: nat
  tailIndex :: nat
  newText :: "string option"
  rule_raw_prh :: "string option"

record changeSet =
  diffs :: "diff list"

record textDocument =
  uri :: string
  version :: int
  getText :: string

record changeSetCache =
  csc_version :: int
  csc_changeSet :: changeSet

record replaceCommandParams =
  rcp_uri :: string
  rcp_version :: int
  textEdit :: textEdit

record prhSettings =
  settings_enable :: "bool option"
  configFiles :: "string list option"



datatype DiagnosticSeverity = Error | Warning | Information | Hint

record diagnostic =
  severity :: DiagnosticSeverity
  diag_range :: lsp_range
  message :: string
  source :: string

record parsedUri =
  scheme :: string
  path :: string

datatype State = valid | invalid

text \<open>
  What \<^verbatim>\<open>fromYAMLFilePaths\<close> can throw: JavaScript throws any value, and the handler
  tests \<^verbatim>\<open>e instanceof Error\<close>. \<open>ErrorInstance m\<close> is an \<^verbatim>\<open>Error\<close> with message
  \<open>m\<close>; \<open>NonError\<close> is any other thrown value.
\<close>

datatype thrown = ErrorInstance string | NonError string

text \<open>The only exception the handler's own code raises: a property read on undefined.\<close>

datatype error = TypeError

datatype executeCommandParams =
    Replace "replaceCommandParams list option"
  | ApplyAllQuickFixes "string list option"
  | OtherCommand string

text \<open>The console lines, one constructor per template of the source.\<close>

datatype logmsg =
    LogOnDidChangeConfiguration prhSettings
  | LogOnDidChangeWatchedFiles "string list"
  | LogMatched string string
  | LogLoadConfig string
  | LogRuleFileNotExists string
  | LogRuleFileNotFound string
  | LogRuleFileFound string
  | LogDiff diff
  | LogReplaceParams replaceCommandParams
  | LogVersionMismatch int int
  | LogUnknownCommand string

datatype event =
    ConsoleLog logmsg
  | ConsoleError thrown
  | ShowWarningMessage string
  | ShowErrorMessage string string
  | SendDiagnostics string "diagnostic list"
  | ApplyEdit string int "textEdit list"
  | Call_fromYAMLFilePaths "string list"
  | Call_makeChangeSet string string

text \<open>
  The collaborators outside the repository, taken as parameters: the file system, the
  rule library (\<^verbatim>\<open>getRuleFilePath\<close>, \<^verbatim>\<open>fromYAMLFilePaths\<close>, \<^verbatim>\<open>Engine.makeChangeSet\<close>),
  \<^verbatim>\<open>Uri.parse\<close> and the offset conversions of \<^verbatim>\<open>TextDocument\<close>. The type \<open>'e\<close> is
  the type of engine objects.
\<close>

record 'e env =
  existsSync :: "string \<Rightarrow> bool"
  getRuleFilePath :: "string \<Rightarrow> string option"
  fromYAMLFilePaths :: "string list \<Rightarrow> thrown + 'e"
  engine_makeChangeSet :: "'e \<Rightarrow> string \<Rightarrow> string \<Rightarrow> changeSet option"
  Uri_parse :: "string \<Rightarrow> parsedUri"
  offsetAt :: "textDocument \<Rightarrow> position \<Rightarrow> nat"
  positionAt :: "textDocument \<Rightarrow> nat \<Rightarrow> position"

text \<open>
  The handler. \<open>enable\<close> is undefined until the first configuration change, which
  \<^verbatim>\<open>!this.enable\<close> reads as false. \<open>engineCache\<close> is an association list in insertion
  order, the order \<^verbatim>\<open>Object.keys\<close> enumerates string keys in; a key can be present with
  the value undefined (\<open>None\<close>). \<open>documents\<close> is the list \<^verbatim>\<open>documents.all()\<close>.
\<close>

record 'e handler =
  enable :: bool
  configPaths :: "string list option"
  state :: State
  engineCache :: "(string \<times> 'e option) list"
  validationCache :: "string \<rightharpoonup> changeSetCache"
  documents :: "textDocument list"
  trace :: "event list"

section \<open>String helpers\<close>

fun join :: "string \<Rightarrow> string list \<Rightarrow> string" where
  "join sep [] = []"
| "join sep [x] = x"
| "join sep (x # y # ys) = x @ sep @ join sep (y # ys)"

fun split :: "char \<Rightarrow> string \<Rightarrow> string list" where
  "split c [] = [[]]"
| "split c (x # xs) =
     (if x = c then [] # split c xs
      else (case split c xs of [] \<Rightarrow> [[x]] | w # ws \<Rightarrow> (x # w) # ws))"

definition endsWith :: "string \<Rightarrow> string \<Rightarrow> bool" where
  "endsWith s t = (length t \<le> length s \<and> drop (length s - length t) s = t)"

section \<open>The handler's operations\<close>

definition emit :: "event \<Rightarrow> 'e handler \<Rightarrow> 'e handler" where
  "emit ev h = h\<lparr>trace := trace h @ [ev]\<rparr>"

definition documents_get :: "textDocument list \<Rightarrow> string \<Rightarrow> textDocument option" where
  "documents_get ds u = find (\<lambda>d. uri d = u) ds"

definition invalidateCache :: "'e handler \<Rightarrow> 'e handler" where
  "invalidateCache h = h\<lparr>engineCache := [], validationCache := Map.empty\<rparr>"

definition clearDiagnostics :: "'e handler \<Rightarrow> textDocument \<Rightarrow> 'e handler" where
  "clearDiagnostics h d = emit (SendDiagnostics (uri d) []) h"

text \<open>
  \<^verbatim>\<open>checkConfig\<close>: the loop over the paths has no effect for a path that exists and
  returns at the first one that does not, so it is \<open>find\<close>.
\<close>

definition checkConfig :: "'e env \<Rightarrow> 'e handler \<Rightarrow> 'e handler" where
  "checkConfig env h =
     (let ps = (case configPaths h of None \<Rightarrow> [] | Some qs \<Rightarrow> qs);
          h1 = h\<lparr>configPaths := Some ps\<rparr>;
          h2 = emit (ConsoleLog (LogLoadConfig
                 (if join '', '' ps = [] then ''implicit'' else join '', '' ps))) h1;
          h3 = invalidateCache h2
      in case find (\<lambda>p. \<not> existsSync env p) ps of
           None \<Rightarrow> h3\<lparr>state := valid\<rparr>
         | Some p \<Rightarrow>
             (let h4 = emit (ConsoleLog (LogRuleFileNotExists p)) h3;
                  h5 = (if state h4 \<noteq> invalid then emit (ShowWarningMessage p) h4 else h4);
                  h6 = h5\<lparr>state := invalid\<rparr>
              in foldl clearDiagnostics h6 (documents h6)))"

text \<open>
  Lines 209 to 224 of \<^verbatim>\<open>makeChangeSet\<close>: the configured paths when
  \<^verbatim>\<open>this.configPaths && this.configPaths[0]\<close> is truthy (a first path that is the empty
  string is falsy), otherwise the rule file found from the document's own path. \<open>None\<close>
  is the \<^verbatim>\<open>return null\<close> of the two failure branches.
\<close>

definition hasConfigPaths :: "'e handler \<Rightarrow> bool" where
  "hasConfigPaths h = (case configPaths h of Some (p # ps) \<Rightarrow> p \<noteq> [] | _ \<Rightarrow> False)"

definition resolveConfigPaths ::
  "'e env \<Rightarrow> 'e handler \<Rightarrow> textDocument \<Rightarrow> string list option \<times> 'e handler" where
  "resolveConfigPaths env h d =
     (if hasConfigPaths h then (configPaths h, h)
      else
        (let contentUri = Uri_parse env (uri d) in
         if scheme contentUri \<noteq> ''file'' then (None, h)
         else (case getRuleFilePath env (path contentUri) of
                 None \<Rightarrow> (None, emit (ConsoleLog (LogRuleFileNotFound (uri d))) h)
               | Some foundPath \<Rightarrow>
                   if foundPath = [] then (None, emit (ConsoleLog (LogRuleFileNotFound (uri d))) h)
                   else (Some [foundPath], emit (ConsoleLog (LogRuleFileFound foundPath)) h))))"

text \<open>
  Lines 226 to 238: the engine for the joined paths. The outer \<open>None\<close> is the
  \<^verbatim>\<open>return null\<close> inside the catch; \<open>Some None\<close> is the fall-through of the catch for
  a thrown value that is not an \<^verbatim>\<open>Error\<close>, which leaves \<^verbatim>\<open>engine\<close> undefined and
  stores it under the key.
\<close>

definition lookupEngine ::
  "'e env \<Rightarrow> 'e handler \<Rightarrow> string list \<Rightarrow> 'e option option \<times> 'e handler" where
  "lookupEngine env h ps =
     (case map_of (engineCache h) (join ''|'' ps) of
        Some (Some e) \<Rightarrow> (Some (Some e), h)
      | _ \<Rightarrow>
          (let h1 = emit (Call_fromYAMLFilePaths ps) h in
           case fromYAMLFilePaths env ps of
             Inr e \<Rightarrow>
               (Some (Some e),
                h1\<lparr>engineCache := AList.update (join ''|'' ps) (Some e) (engineCache h1)\<rparr>)
           | Inl x \<Rightarrow>
               (let h2 = emit (ConsoleError x) h1 in
                case x of
                  ErrorInstance m \<Rightarrow> (None, emit (ShowErrorMessage m (join '' ,'' ps)) h2)
                | NonError v \<Rightarrow>
                    (Some None,
                     h2\<lparr>engineCache := AList.update (join ''|'' ps) None (engineCache h2)\<rparr>))))"

text \<open>Lines 207 to 249: the path of \<^verbatim>\<open>makeChangeSet\<close> after a cache miss.\<close>

definition makeChangeSet_miss ::
  "'e env \<Rightarrow> 'e handler \<Rightarrow> textDocument \<Rightarrow> (error + changeSet option) \<times> 'e handler" where
  "makeChangeSet_miss env h d =
     (let h1 = h\<lparr>validationCache := (validationCache h)(uri d := None)\<rparr> in
      case resolveConfigPaths env h1 d of
        (None, h2) \<Rightarrow> (Inr None, h2)
      | (Some ps, h2) \<Rightarrow>
          (case lookupEngine env h2 ps of
             (None, h3) \<Rightarrow> (Inr None, h3)
           | (Some None, h3) \<Rightarrow> (Inl TypeError, h3)
           | (Some (Some e), h3) \<Rightarrow>
               (let h4 = emit (Call_makeChangeSet (uri d) (getText d)) h3 in
                case engine_makeChangeSet env e (uri d) (getText d) of
                  None \<Rightarrow> (Inr None, h4)
                | Some cs \<Rightarrow>
                    (Inr (Some cs),
                     h4\<lparr>validationCache := (validationCache h4)
                          (uri d \<mapsto> \<lparr>csc_version = version d, csc_changeSet = cs\<rparr>)\<rparr>))))"

text \<open>
  \<^verbatim>\<open>makeChangeSet\<close>. The argument is an option because the callers pass the result of
  \<^verbatim>\<open>documents.get\<close> unchecked; reading \<^verbatim>\<open>textDocument.uri\<close> of undefined raises.
\<close>

definition makeChangeSet ::
  "'e env \<Rightarrow> 'e handler \<Rightarrow> textDocument option \<Rightarrow> (error + changeSet option) \<times> 'e handler" where
  "makeChangeSet env h od =
     (if \<not> enable h \<or> state h = invalid then (Inr None, h)
      else case od of
        None \<Rightarrow> (Inl TypeError, h)
      | Some d \<Rightarrow>
          (case validationCache h (uri d) of
             None \<Rightarrow> makeChangeSet_miss env h d
           | Some c \<Rightarrow>
               if csc_version c = version d then (Inr (Some (csc_changeSet c)), h)
               else makeChangeSet_miss env h d))"

text \<open>\<^verbatim>\<open>diff.newText || "??"\<close>: null and the empty string are both falsy.\<close>

definition newTextOr :: "diff \<Rightarrow> string" where
  "newTextOr df = (case newText df of None \<Rightarrow> ''??'' | Some s \<Rightarrow> if s = [] then ''??'' else s)"

definition diagnosticOf :: "'e env \<Rightarrow> textDocument \<Rightarrow> diff \<Rightarrow> diagnostic" where
  "diagnosticOf env d df =
     \<lparr>severity = Warning,
      diag_range = \<lparr>range_start = positionAt env d (index df),
                    range_end = positionAt env d (tailIndex df)\<rparr>,
      message = (case rule_raw_prh df of
                   None \<Rightarrow> ''->'' @ newTextOr df
                 | Some p \<Rightarrow> if p = [] then ''->'' @ newTextOr df
                             else ''->'' @ newTextOr df @ '' '' @ p),
      source = ''prh''\<rparr>"

text \<open>
  \<^verbatim>\<open>makeDiagnostic\<close> logs every diff while it maps them; the call \<^verbatim>\<open>diff.apply\<close> in the
  loop discards its result.
\<close>

definition makeDiagnostic ::
  "'e env \<Rightarrow> 'e handler \<Rightarrow> textDocument \<Rightarrow> (error + diagnostic list option) \<times> 'e handler" where
  "makeDiagnostic env h d =
     (case makeChangeSet env h (Some d) of
        (Inl e, h1) \<Rightarrow> (Inl e, h1)
      | (Inr None, h1) \<Rightarrow> (Inr None, h1)
      | (Inr (Some cs), h1) \<Rightarrow>
          (Inr (Some (map (diagnosticOf env d) (diffs cs))),
           foldl (\<lambda>k df. emit (ConsoleLog (LogDiff df)) k) h1 (diffs cs)))"

definition validateAndSendDiagnostics ::
  "'e env \<Rightarrow> 'e handler \<Rightarrow> textDocument \<Rightarrow> (error + unit) \<times> 'e handler" where
  "validateAndSendDiagnostics env h d =
     (case makeDiagnostic env h d of
        (Inl e, h1) \<Rightarrow> (Inl e, h1)
      | (Inr ds, h1) \<Rightarrow>
          (Inr (), emit (SendDiagnostics (uri d) (case ds of None \<Rightarrow> [] | Some xs \<Rightarrow> xs)) h1))"

text \<open>
  \<^verbatim>\<open>documents.all().forEach(document => this.validateAndSendDiagnostics(document))\<close>:
  an exception in one call ends the loop.
\<close>

fun forEach_validate ::
  "'e env \<Rightarrow> 'e handler \<Rightarrow> textDocument list \<Rightarrow> (error + unit) \<times> 'e handler" where
  "forEach_validate env h [] = (Inr (), h)"
| "forEach_validate env h (d # ds) =
     (case validateAndSendDiagnostics env h d of
        (Inl e, h1) \<Rightarrow> (Inl e, h1)
      | (Inr u, h1) \<Rightarrow> forEach_validate env h1 ds)"

definition onDidChangeConfiguration ::
  "'e env \<Rightarrow> 'e handler \<Rightarrow> prhSettings \<Rightarrow> (error + unit) \<times> 'e handler" where
  "onDidChangeConfiguration env h s =
     (let h1 = emit (ConsoleLog (LogOnDidChangeConfiguration s)) h;
          h2 = h1\<lparr>enable := (settings_enable s = Some True),
                  configPaths := Some (case configFiles s of None \<Rightarrow> [] | Some fs \<Rightarrow> fs)\<rparr>;
          h3 = checkConfig env h2
      in forEach_validate env h3 (documents h3))"

definition onDidChangeContent ::
  "'e env \<Rightarrow> 'e handler \<Rightarrow> textDocument \<Rightarrow> (error + unit) \<times> 'e handler" where
  "onDidChangeContent env h d = validateAndSendDiagnostics env h d"

text \<open>
  \<^verbatim>\<open>onDidChangeWatchedFiles\<close>: the nested \<^verbatim>\<open>some\<close> calls stop at the first changed file,
  cache key and rule path with \<^verbatim>\<open>uri.path.endsWith(rulePath)\<close>, which is the head of
  the list of all matches in that order.
\<close>

definition watchedMatches :: "'e env \<Rightarrow> 'e handler \<Rightarrow> string list \<Rightarrow> (string \<times> string) list" where
  "watchedMatches env h changes =
     concat (map (\<lambda>c. concat (map (\<lambda>k.
         map (\<lambda>rulePath. (path (Uri_parse env c), rulePath))
           (filter (\<lambda>rulePath. endsWith (path (Uri_parse env c)) rulePath) (split CHR ''|'' k)))
       (map fst (engineCache h)))) changes)"

definition onDidChangeWatchedFiles ::
  "'e env \<Rightarrow> 'e handler \<Rightarrow> string list \<Rightarrow> (error + unit) \<times> 'e handler" where
  "onDidChangeWatchedFiles env h changes =
     (let h1 = emit (ConsoleLog (LogOnDidChangeWatchedFiles changes)) h in
      case watchedMatches env h1 changes of
        [] \<Rightarrow> (Inr (), h1)
      | (p, rulePath) # ms \<Rightarrow>
          (let h2 = emit (ConsoleLog (LogMatched p rulePath)) h1;
               h3 = checkConfig env h2
           in forEach_validate env h3 (documents h3)))"



text \<open>
  \<^verbatim>\<open>executeReplace\<close>. The continuation of \<^verbatim>\<open>applyEdit\<close> runs when the host answers
  and only writes the answer to the console; it is not part of the call.
\<close>

definition executeReplace ::
  "'e handler \<Rightarrow> replaceCommandParams list option \<Rightarrow> (error + unit) \<times> 'e handler" where
  "executeReplace h args =
     (case args of
        None \<Rightarrow> (Inr (), h)
      | Some [] \<Rightarrow> (Inr (), h)
      | Some (commandParams # rest) \<Rightarrow>
          (let h1 = emit (ConsoleLog (LogReplaceParams commandParams)) h in
           case documents_get (documents h1) (rcp_uri commandParams) of
             None \<Rightarrow> (Inl TypeError, h1)
           | Some d \<Rightarrow>
               if rcp_version commandParams \<noteq> version d
               then (Inr (), emit (ConsoleLog
                       (LogVersionMismatch (rcp_version commandParams) (version d))) h1)
               else (Inr (), emit (ApplyEdit (uri d) (version d) [textEdit commandParams]) h1)))"

definition getTextEditFromDiff :: "'e env \<Rightarrow> textDocument \<Rightarrow> diff \<Rightarrow> textEdit" where
  "getTextEditFromDiff env d df =
     \<lparr>edit_range = \<lparr>range_start = positionAt env d (index df),
                    range_end = positionAt env d (tailIndex df)\<rparr>,
      edit_newText = newTextOr df\<rparr>"

definition executeApplyAllQuickFixes ::
  "'e env \<Rightarrow> 'e handler \<Rightarrow> string list option \<Rightarrow> (error + unit) \<times> 'e handler" where
  "executeApplyAllQuickFixes env h args =
     (case args of
        None \<Rightarrow> (Inr (), h)
      | Some [] \<Rightarrow> (Inr (), h)
      | Some (u # rest) \<Rightarrow>
          if u = [] then (Inr (), h)
          else
            (let textDocument = documents_get (documents h) u in
             case makeChangeSet env h textDocument of
               (Inl e, h1) \<Rightarrow> (Inl e, h1)
             | (Inr None, h1) \<Rightarrow> (Inr (), h1)
             | (Inr (Some cs), h1) \<Rightarrow>
                 (case textDocument of
                    None \<Rightarrow> (Inl TypeError, h1)
                  | Some d \<Rightarrow>
                      (Inr (), emit (ApplyEdit (uri d) (version d)
                                 (map (getTextEditFromDiff env d) (diffs cs))) h1))))"

definition onExecuteCommand ::
  "'e env \<Rightarrow> 'e handler \<Rightarrow> executeCommandParams \<Rightarrow> (error + unit) \<times> 'e handler" where
  "onExecuteCommand env h args =
     (case args of
        Replace a \<Rightarrow> executeReplace h a
      | ApplyAllQuickFixes a \<Rightarrow> executeApplyAllQuickFixes env h a
      | OtherCommand c \<Rightarrow> (Inr (), emit (ConsoleLog (LogUnknownCommand c)) h))"

section \<open>Counting engine invocations\<close>

definition isEngineCall :: "event \<Rightarrow> bool" where
  "isEngineCall ev = (case ev of Call_makeChangeSet u t \<Rightarrow> True | _ \<Rightarrow> False)"

definition engineInvocations :: "event list \<Rightarrow> nat" where
  "engineInvocations tr = length (filter isEngineCall tr)"

definition position_le :: "position \<Rightarrow> position \<Rightarrow> bool" where
  "position_le p q = (line p < line q \<or> (line p = line q \<and> character p \<le> character q))"

section \<open>A concrete server for the scenarios\<close>

text \<open>
  One rule file \<open>prh.yml\<close> exists; \<open>broken.yml\<close> fails to parse with an \<^verbatim>\<open>Error\<close>,
  \<open>odd.yml\<close> makes the library throw a string. The engine flags \<open>[0,3)\<close> and
  \<open>[10,15)\<close> in every text but \<open>quiet\<close>, for which it returns null. Documents have one
  line, so a position is its character offset.
\<close>

definition test_diffs :: "diff list" where
  "test_diffs =
     [\<lparr>index = 0, tailIndex = 3, newText = Some ''ABC'', rule_raw_prh = None\<rparr>,
      \<lparr>index = 10, tailIndex = 15, newText = None, rule_raw_prh = Some ''hint''\<rparr>]"

definition test_env :: "nat env" where
  "test_env =
     \<lparr>existsSync = (\<lambda>p. p = ''prh.yml'' \<or> p = ''broken.yml'' \<or> p = ''odd.yml''),
      getRuleFilePath = (\<lambda>p. if p = ''/w/doc.md'' then Some ''/w/prh.yml'' else None),
      fromYAMLFilePaths =
        (\<lambda>ps. if ps = [''broken.yml''] then Inl (ErrorInstance ''bad yaml'')
              else if ps = [''odd.yml''] then Inl (NonError ''thrown string'')
              else Inr 0),
      engine_makeChangeSet = (\<lambda>e u t. if t = ''quiet'' then None else Some \<lparr>diffs = test_diffs\<rparr>),
      Uri_parse =
        (\<lambda>u. if take 7 u = ''file://'' then \<lparr>scheme = ''file'', path = drop 7 u\<rparr>
             else \<lparr>scheme = ''untitled'', path = u\<rparr>),
      offsetAt = (\<lambda>d p. character p),
      positionAt = (\<lambda>d n. \<lparr>line = 0, character = n\<rparr>)\<rparr>"

definition test_doc :: textDocument where
  "test_doc = \<lparr>uri = ''file:///w/doc.md'', version = 1, getText = ''abc and so defgh''\<rparr>"

definition quiet_doc :: textDocument where
  "quiet_doc = \<lparr>uri = ''file:///w/quiet.md'', version = 1, getText = ''quiet''\<rparr>"

definition test_handler :: "string list \<Rightarrow> nat handler" where
  "test_handler ps =
     \<lparr>enable = True, configPaths = Some ps, state = valid, engineCache = [],
      validationCache = Map.empty, documents = [test_doc, quiet_doc], trace = []\<rparr>"

definition test_replace :: "int \<Rightarrow> replaceCommandParams" where
  "test_replace v =
     \<lparr>rcp_uri = ''file:///w/doc.md'', rcp_version = v,
      textEdit = \<lparr>edit_range = \<lparr>range_start = \<lparr>line = 0, character = 0\<rparr>,
                                 range_end = \<lparr>line = 0, character = 3\<rparr>\<rparr>,
                  edit_newText = ''ABC''\<rparr>\<rparr>"


definition rules_settings :: prhSettings where
  "rules_settings = \<lparr>settings_enable = Some True, configFiles = Some [''rules.yml'']\<rparr>"

text \<open>
  The same server with an engine that answers every text with the two diffs, and a replace
  command for a document that is not open.
\<close>

definition total_env :: "nat env" where
  "total_env = test_env\<lparr>engine_makeChangeSet := (\<lambda>e u t. Some \<lparr>diffs = test_diffs\<rparr>)\<rparr>"

definition closed_replace :: replaceCommandParams where
  "closed_replace = (test_replace 1)\<lparr>rcp_uri := ''file:///w/closed.md''\<rparr>"

section \<open>Basic facts\<close>

lemma emit_fields [simp]:
  "enable (emit ev h) = enable h"
  "configPaths (emit ev h) = configPaths h"
  "state (emit ev h) = state h"
  "engineCache (emit ev h) = engineCache h"
  "validationCache (emit ev h) = validationCache h"
  "documents (emit ev h) = documents h"
  "trace (emit ev h) = trace h @ [ev]"
  by (simp_all add: emit_def)

lemma documents_get_uri: "documents_get ds u = Some d \<Longrightarrow> uri d = u"
  by (induction ds) (auto simp: documents_get_def split: if_splits)

lemma engineInvocations_append [simp]:
  "engineInvocations (xs @ ys) = engineInvocations xs + engineInvocations ys"
  by (simp add: engineInvocations_def)

lemma engineInvocations_simps [simp]:
  "engineInvocations [] = 0"
  "engineInvocations (ConsoleLog l # tr) = engineInvocations tr"
  "engineInvocations (ConsoleError x # tr) = engineInvocations tr"
  "engineInvocations (ShowWarningMessage p # tr) = engineInvocations tr"
  "engineInvocations (ShowErrorMessage m q # tr) = engineInvocations tr"
  "engineInvocations (SendDiagnostics u ds # tr) = engineInvocations tr"
  "engineInvocations (ApplyEdit u v es # tr) = engineInvocations tr"
  "engineInvocations (Call_fromYAMLFilePaths ps # tr) = engineInvocations tr"
  "engineInvocations (Call_makeChangeSet u t # tr) = Suc (engineInvocations tr)"
  by (simp_all add: engineInvocations_def isEngineCall_def)

lemma resolveConfigPaths_cong:
  "configPaths h = configPaths k \<Longrightarrow>
   fst (resolveConfigPaths env h d) = fst (resolveConfigPaths env k d)"
  by (simp add: resolveConfigPaths_def hasConfigPaths_def Let_def split: option.splits)

lemma resolveConfigPaths_fields:
  assumes "resolveConfigPaths env h d = (r, h2)"
  shows "enable h2 = enable h" "state h2 = state h" "configPaths h2 = configPaths h"
    "engineCache h2 = engineCache h" "validationCache h2 = validationCache h"
    "documents h2 = documents h" "engineInvocations (trace h2) = engineInvocations (trace h)"
  using assms
  by (auto simp: resolveConfigPaths_def Let_def split: if_splits option.splits)

lemma lookupEngine_hit:
  "map_of (engineCache h) (join ''|'' ps) = Some (Some e) \<Longrightarrow>
   lookupEngine env h ps = (Some (Some e), h)"
  by (simp add: lookupEngine_def)

lemma lookupEngine_fields:
  assumes "lookupEngine env h ps = (r, h3)"
  shows "enable h3 = enable h" "state h3 = state h" "configPaths h3 = configPaths h"
    "validationCache h3 = validationCache h" "documents h3 = documents h"
    "engineInvocations (trace h3) = engineInvocations (trace h)"
    "r = Some (Some e) \<Longrightarrow> map_of (engineCache h3) (join ''|'' ps) = Some (Some e)"
  using assms
  by (auto simp: lookupEngine_def Let_def update_conv' split: if_splits option.splits sum.splits thrown.splits)

lemma makeChangeSet_miss_fields:
  assumes "makeChangeSet_miss env h d = (r, h')"
  shows "enable h' = enable h \<and> state h' = state h \<and> configPaths h' = configPaths h \<and>
         documents h' = documents h"
proof -
  let ?h1 = "h\<lparr>validationCache := (validationCache h)(uri d := None)\<rparr>"
  obtain r1 h2 where R: "resolveConfigPaths env ?h1 d = (r1, h2)" by force
  note F = resolveConfigPaths_fields[OF R]
  show ?thesis
  proof (cases r1)
    case None
    with assms R F show ?thesis
      by (auto simp: makeChangeSet_miss_def Let_def)
  next
    case (Some ps)
    obtain r2 h3 where L: "lookupEngine env h2 ps = (r2, h3)" by force
    note G = lookupEngine_fields(1-6)[OF L]
    from assms R Some L F G show ?thesis
      by (auto simp: makeChangeSet_miss_def Let_def split: option.splits)
  qed
qed

lemma makeChangeSet_miss_cache:
  assumes "makeChangeSet_miss env h d = (r, h')"
  shows "(\<forall>u. u \<noteq> uri d \<longrightarrow> validationCache h' u = validationCache h u) \<and>
         (case r of
            Inr (Some cs) \<Rightarrow>
              validationCache h' (uri d) = Some \<lparr>csc_version = version d, csc_changeSet = cs\<rparr> \<and>
              (\<exists>e. engine_makeChangeSet env e (uri d) (getText d) = Some cs) \<and>
              engineInvocations (trace h') = Suc (engineInvocations (trace h))
          | _ \<Rightarrow> validationCache h' (uri d) = None)"
proof -
  let ?h1 = "h\<lparr>validationCache := (validationCache h)(uri d := None)\<rparr>"
  obtain r1 h2 where R: "resolveConfigPaths env ?h1 d = (r1, h2)" by force
  note F = resolveConfigPaths_fields[OF R]
  show ?thesis
  proof (cases r1)
    case None
    with assms R F show ?thesis
      by (auto simp: makeChangeSet_miss_def Let_def)
  next
    case (Some ps)
    obtain r2 h3 where L: "lookupEngine env h2 ps = (r2, h3)" by force
    note G = lookupEngine_fields(1-6)[OF L]
    from assms R Some L F G show ?thesis
      by (auto simp: makeChangeSet_miss_def Let_def split: option.splits)
  qed
qed

lemma makeChangeSet_miss_null_again:
  assumes M: "makeChangeSet_miss env h d = (Inr None, h')"
    and inc: "engineInvocations (trace h') = Suc (engineInvocations (trace h))"
  shows "fst (makeChangeSet_miss env h' d) = Inr None \<and>
         engineInvocations (trace (snd (makeChangeSet_miss env h' d))) =
           Suc (engineInvocations (trace h'))"
proof -
  let ?h1 = "h\<lparr>validationCache := (validationCache h)(uri d := None)\<rparr>"
  let ?k1 = "h'\<lparr>validationCache := (validationCache h')(uri d := None)\<rparr>"
  obtain r1 h2 where R: "resolveConfigPaths env ?h1 d = (r1, h2)" by force
  note F = resolveConfigPaths_fields[OF R]
  from M R F inc obtain ps where ps: "r1 = Some ps"
    by (cases r1) (auto simp: makeChangeSet_miss_def)
  obtain r2 h3 where L: "lookupEngine env h2 ps = (r2, h3)" by force
  note G = lookupEngine_fields[OF L]
  from M R ps L F G(1-6) inc obtain e where e: "r2 = Some (Some e)"
    by (cases r2) (auto simp: makeChangeSet_miss_def split: option.splits)
  from M R ps L e have eng: "engine_makeChangeSet env e (uri d) (getText d) = None"
    and h': "h' = emit (Call_makeChangeSet (uri d) (getText d)) h3"
    by (auto simp: makeChangeSet_miss_def Let_def split: option.splits)
  have cp: "configPaths ?k1 = configPaths ?h1"
    using h' F(3) G(3) by simp
  obtain k2 where R2: "resolveConfigPaths env ?k1 d = (Some ps, k2)"
    using resolveConfigPaths_cong[OF cp, of env d] R ps
    by (cases "resolveConfigPaths env ?k1 d") auto
  note F2 = resolveConfigPaths_fields[OF R2]
  have "map_of (engineCache k2) (join ''|'' ps) = Some (Some e)"
    using G(7)[OF e] F2(4) h' by simp
  then have L2: "lookupEngine env k2 ps = (Some (Some e), k2)"
    by (rule lookupEngine_hit)
  from R2 L2 eng F2(7) show ?thesis
    by (simp add: makeChangeSet_miss_def Let_def)
qed

lemma hasConfigPaths_validationCache [simp]:
  "hasConfigPaths (h\<lparr>validationCache := v\<rparr>) = hasConfigPaths h"
  by (simp add: hasConfigPaths_def)

lemma makeChangeSet_miss_unresolved:
  assumes "\<not> hasConfigPaths h"
    and "scheme (Uri_parse env (uri d)) \<noteq> ''file'' \<or>
         getRuleFilePath env (path (Uri_parse env (uri d))) = None \<or>
         getRuleFilePath env (path (Uri_parse env (uri d))) = Some []"
  shows "makeChangeSet_miss env h d =
           (Inr None,
            h\<lparr>validationCache := (validationCache h)(uri d := None),
              trace := trace h @ (if scheme (Uri_parse env (uri d)) = ''file''
                                  then [ConsoleLog (LogRuleFileNotFound (uri d))] else [])\<rparr>)"
  using assms
  by (auto simp: makeChangeSet_miss_def resolveConfigPaths_def Let_def emit_def)

lemma foldl_clearDiagnostics:
  "foldl clearDiagnostics h ds = h\<lparr>trace := trace h @ map (\<lambda>d. SendDiagnostics (uri d) []) ds\<rparr>"
  by (induction ds arbitrary: h) (simp_all add: clearDiagnostics_def emit_def)

lemma find_first:
  "(\<forall>q\<in>set good. \<not> P q) \<Longrightarrow> P p \<Longrightarrow> find P (good @ p # rest) = Some p"
  by (induction good) auto

lemma checkConfig_all_exist:
  assumes "ps = (case configPaths h of None \<Rightarrow> [] | Some qs \<Rightarrow> qs)"
    and "\<forall>p\<in>set ps. existsSync env p"
  shows "checkConfig env h =
           h\<lparr>configPaths := Some ps,
             state := valid, engineCache := [], validationCache := Map.empty,
             trace := trace h @ [ConsoleLog (LogLoadConfig
               (if join '', '' ps = [] then ''implicit'' else join '', '' ps))]\<rparr>"
proof -
  have "find (\<lambda>p. \<not> existsSync env p) ps = None"
    using assms(2) by (simp add: find_None_iff)
  then show ?thesis
    using assms(1) by (simp add: checkConfig_def Let_def invalidateCache_def emit_def)
qed

lemma checkConfig_missing:
  assumes "ps = (case configPaths h of None \<Rightarrow> [] | Some qs \<Rightarrow> qs)"
    and "ps = good @ p # rest"
    and "\<forall>q\<in>set good. existsSync env q" and "\<not> existsSync env p"
  shows "checkConfig env h =
           h\<lparr>configPaths := Some ps,
             state := invalid, engineCache := [], validationCache := Map.empty,
             trace := trace h @
               [ConsoleLog (LogLoadConfig (if join '', '' ps = [] then ''implicit'' else join '', '' ps)),
                ConsoleLog (LogRuleFileNotExists p)] @
               (if state h = invalid then [] else [ShowWarningMessage p]) @
               map (\<lambda>d. SendDiagnostics (uri d) []) (documents h)\<rparr>"
proof -
  have "find (\<lambda>p. \<not> existsSync env p) ps = Some p"
    using assms(2-4) by (simp add: find_first)
  then show ?thesis
    using assms(1)
    by (simp add: checkConfig_def Let_def invalidateCache_def emit_def foldl_clearDiagnostics)
qed

lemma checkConfig_caches:
  "engineCache (checkConfig env h) = [] \<and> validationCache (checkConfig env h) = Map.empty"
  by (simp add: checkConfig_def Let_def invalidateCache_def emit_def foldl_clearDiagnostics
      split: option.splits)

lemma checkConfig_ignores_caches:
  "checkConfig env (h\<lparr>engineCache := ec, validationCache := vc\<rparr>) = checkConfig env h"
  by (simp add: checkConfig_def Let_def invalidateCache_def emit_def foldl_clearDiagnostics
      split: option.splits)

lemma checkConfig_documents: "documents (checkConfig env h) = documents h"
  by (simp add: checkConfig_def Let_def invalidateCache_def emit_def foldl_clearDiagnostics
      split: option.splits)

lemma makeChangeSet_cache_hit:
  assumes "makeChangeSet env h (Some d) = (Inr (Some cs), h')"
  shows "makeChangeSet env h' (Some d) = (Inr (Some cs), h') \<and>
         engineInvocations (trace (snd (makeChangeSet env h' (Some d)))) =
           engineInvocations (trace h')"
proof -
  from assms have en: "enable h" "state h \<noteq> invalid"
    by (auto simp: makeChangeSet_def split: if_splits)
  have "makeChangeSet env h' (Some d) = (Inr (Some cs), h')"
  proof (cases "\<exists>c. validationCache h (uri d) = Some c \<and> csc_version c = version d")
    case True
    with assms en show ?thesis by (auto simp: makeChangeSet_def)
  next
    case False
    with assms en have M: "makeChangeSet_miss env h d = (Inr (Some cs), h')"
      by (auto simp: makeChangeSet_def split: option.splits if_splits)
    from makeChangeSet_miss_fields[OF M] makeChangeSet_miss_cache[OF M] en
    show ?thesis by (simp add: makeChangeSet_def)
  qed
  then show ?thesis by simp
qed

lemma lookupEngine_again:
  assumes "lookupEngine env h ps = (r, h3)" and "engineCache k = engineCache h3"
  shows "fst (lookupEngine env k ps) = r"
proof (cases "\<exists>e. map_of (engineCache h) (join ''|'' ps) = Some (Some e)")
  case True
  then obtain e where e: "map_of (engineCache h) (join ''|'' ps) = Some (Some e)" by blast
  from lookupEngine_hit[OF e, of env] assms(1) have "r = Some (Some e)" "h3 = h" by simp_all
  with e assms(2) show ?thesis by (simp add: lookupEngine_hit)
next
  case False
  then have miss: "map_of (engineCache h) (join ''|'' ps) = None \<or>
                   map_of (engineCache h) (join ''|'' ps) = Some None"
    by (cases "map_of (engineCache h) (join ''|'' ps)") auto
  show ?thesis
  proof (cases "fromYAMLFilePaths env ps")
    case (Inr e)
    with miss assms(1) have "r = Some (Some e)"
      and "map_of (engineCache h3) (join ''|'' ps) = Some (Some e)"
      by (auto simp: lookupEngine_def Let_def update_conv')
    with assms(2) show ?thesis by (simp add: lookupEngine_def)
  next
    case (Inl x)
    show ?thesis
    proof (cases x)
      case (ErrorInstance m)
      with Inl miss assms(1) have "r = None" and "engineCache h3 = engineCache h"
        by (auto simp: lookupEngine_def Let_def)
      with Inl ErrorInstance miss assms(2) show ?thesis
        by (auto simp: lookupEngine_def Let_def)
    next
      case (NonError v)
      with Inl miss assms(1) have "r = Some None"
        and "map_of (engineCache h3) (join ''|'' ps) = Some None"
        by (auto simp: lookupEngine_def Let_def update_conv')
      with Inl NonError assms(2) show ?thesis
        by (simp add: lookupEngine_def Let_def)
    qed
  qed
qed

lemma makeChangeSet_miss_again:
  assumes NN: "\<forall>e u t. engine_makeChangeSet env e u t \<noteq> None"
    and M: "makeChangeSet_miss env h d = (r, h')"
    and R: "\<forall>cs. r \<noteq> Inr (Some cs)"
  shows "fst (makeChangeSet_miss env h' d) = r \<and>
         engineInvocations (trace (snd (makeChangeSet_miss env h' d))) =
           engineInvocations (trace h')"
proof -
  let ?h1 = "h\<lparr>validationCache := (validationCache h)(uri d := None)\<rparr>"
  let ?k1 = "h'\<lparr>validationCache := (validationCache h')(uri d := None)\<rparr>"
  obtain r1 h2 where R1: "resolveConfigPaths env ?h1 d = (r1, h2)" by force
  note F = resolveConfigPaths_fields[OF R1]
  from makeChangeSet_miss_fields[OF M] have cp: "configPaths ?k1 = configPaths ?h1" by simp
  obtain k2 where R2: "resolveConfigPaths env ?k1 d = (r1, k2)"
    using resolveConfigPaths_cong[OF cp, of env d] R1
    by (cases "resolveConfigPaths env ?k1 d") auto
  note F2 = resolveConfigPaths_fields[OF R2]
  show ?thesis
  proof (cases r1)
    case None
    with M R1 have "r = Inr None" by (simp add: makeChangeSet_miss_def)
    with None R2 F2 show ?thesis by (simp add: makeChangeSet_miss_def)
  next
    case (Some ps)
    obtain r2 h3 where L: "lookupEngine env h2 ps = (r2, h3)" by force
    have ne: "\<forall>e. r2 \<noteq> Some (Some e)"
    proof (intro allI notI)
      fix e assume e: "r2 = Some (Some e)"
      from NN have "engine_makeChangeSet env e (uri d) (getText d) \<noteq> None" by blast
      then obtain cs where "engine_makeChangeSet env e (uri d) (getText d) = Some cs" by auto
      with M R1 Some L e have "r = Inr (Some cs)"
        by (simp add: makeChangeSet_miss_def Let_def)
      with R show False by simp
    qed
    with M R1 Some L have h': "h' = h3" and r: "r = (case r2 of None \<Rightarrow> Inr None | Some x \<Rightarrow> Inl TypeError)"
      by (cases r2; auto simp: makeChangeSet_miss_def split: option.splits)+
    have "engineCache k2 = engineCache h3" using F2(4) h' by simp
    from lookupEngine_again[OF L this] obtain k3 where L2: "lookupEngine env k2 ps = (r2, k3)"
      by (cases "lookupEngine env k2 ps") auto
    note G2 = lookupEngine_fields(6)[OF L2]
    from R2 Some L2 ne r G2 F2(7) show ?thesis
      by (cases r2) (auto simp: makeChangeSet_miss_def split: option.splits)
  qed
qed

lemma resolveConfigPaths_validationCache:
  "resolveConfigPaths env (h\<lparr>validationCache := v\<rparr>) d =
     (fst (resolveConfigPaths env h d), (snd (resolveConfigPaths env h d))\<lparr>validationCache := v\<rparr>)"
  by (simp add: resolveConfigPaths_def Let_def emit_def split: option.splits)

lemmas scenario_defs =
  makeChangeSet_def makeChangeSet_miss_def resolveConfigPaths_def hasConfigPaths_def
  lookupEngine_def emit_def Let_def test_env_def test_handler_def test_doc_def quiet_doc_def
  test_diffs_def

section \<open>The validation cache\<close>

text \<open>
  Claim C1. The engine of the rule library answers every text with a change set, never
  with null. Under that interface, validating a document a second time, with nothing in
  between, returns what the first validation returned and does not invoke the engine:
  the number of engine invocations in the trace does not grow. When the first validation
  returned a change set, the second returns the same one from the cache and leaves the
  handler exactly as it was, trace included.
\<close>

theorem makeChangeSet_twice:
  assumes "\<forall>e u t. engine_makeChangeSet env e u t \<noteq> None"
    and "makeChangeSet env h (Some d) = (r, h')"
  shows "fst (makeChangeSet env h' (Some d)) = r \<and>
         engineInvocations (trace (snd (makeChangeSet env h' (Some d)))) =
           engineInvocations (trace h') \<and>
         (\<forall>cs. r = Inr (Some cs) \<longrightarrow> makeChangeSet env h' (Some d) = (Inr (Some cs), h'))"
proof (cases "\<exists>cs. r = Inr (Some cs)")
  case True
  then obtain cs where cs: "r = Inr (Some cs)" by blast
  from makeChangeSet_cache_hit[OF assms(2)[unfolded cs]] cs show ?thesis by simp
next
  case no: False
  show ?thesis
  proof (cases "(\<not> enable h \<or> state h = invalid) \<or>
      (\<exists>c. validationCache h (uri d) = Some c \<and> csc_version c = version d)")
    case True
    with assms(2) no show ?thesis
      by (auto simp: makeChangeSet_def split: if_splits)
  next
    case False
    with assms(2) have M: "makeChangeSet_miss env h d = (r, h')"
      by (auto simp: makeChangeSet_def split: option.splits if_splits)
    from no have R: "\<forall>cs. r \<noteq> Inr (Some cs)" by simp
    from makeChangeSet_miss_cache[OF M] R have V: "validationCache h' (uri d) = None"
      by (cases r) (auto split: option.splits)
    have "makeChangeSet env h' (Some d) = makeChangeSet_miss env h' d"
      using False makeChangeSet_miss_fields[OF M] V by (simp add: makeChangeSet_def)
    with makeChangeSet_miss_again[OF assms(1) M R] no show ?thesis by simp
  qed
qed

theorem makeChangeSet_twice_witness:
  "makeChangeSet total_env (snd (makeChangeSet total_env (test_handler [''prh.yml'']) (Some test_doc)))
      (Some test_doc) =
     (Inr (Some \<lparr>diffs = test_diffs\<rparr>),
      snd (makeChangeSet total_env (test_handler [''prh.yml'']) (Some test_doc))) \<and>
   engineInvocations (trace (snd (makeChangeSet total_env
      (snd (makeChangeSet total_env (test_handler [''prh.yml'']) (Some test_doc)))
      (Some test_doc)))) = 1 \<and>
   fst (makeChangeSet total_env (snd (makeChangeSet total_env (test_handler []) (Some quiet_doc)))
      (Some quiet_doc)) = Inr None \<and>
   engineInvocations (trace (snd (makeChangeSet total_env
      (snd (makeChangeSet total_env (test_handler []) (Some quiet_doc)))
      (Some quiet_doc)))) = 0"
proof -
  have NN: "\<forall>e u t. engine_makeChangeSet total_env e u t \<noteq> None"
    by (simp add: total_env_def)
  have H: "makeChangeSet total_env (test_handler [''prh.yml'']) (Some test_doc) =
     (Inr (Some \<lparr>diffs = test_diffs\<rparr>),
      snd (makeChangeSet total_env (test_handler [''prh.yml'']) (Some test_doc)))"
    by (simp add: total_env_def scenario_defs)
  have E: "engineInvocations
      (trace (snd (makeChangeSet total_env (test_handler [''prh.yml'']) (Some test_doc)))) = 1"
    by (simp add: total_env_def scenario_defs)
  have K: "makeChangeSet total_env (test_handler []) (Some quiet_doc) =
     (Inr None, snd (makeChangeSet total_env (test_handler []) (Some quiet_doc)))"
    by (simp add: total_env_def scenario_defs)
  have E0: "engineInvocations
      (trace (snd (makeChangeSet total_env (test_handler []) (Some quiet_doc)))) = 0"
    by (simp add: total_env_def scenario_defs)
  from makeChangeSet_twice[OF NN H] makeChangeSet_twice[OF NN K] E E0 show ?thesis by simp
qed

text \<open>
  Claim C10. After a validation, every cache entry that was not there before belongs to
  the validated document, carries that document's version, and holds the change set the
  engine has just returned for the document's text (one engine invocation in this call,
  whose result is also the result of the validation). A validation that returns a change
  set leaves it in the cache under the document's version. When the engine was invoked and
  the validation returned null, the document has no entry afterwards, and validating it
  again returns null and invokes the engine once more.
\<close>

theorem validationCache_entries:
  assumes "makeChangeSet env h (Some d) = (r, h')"
  shows "(\<forall>u c. validationCache h' u = Some c \<and> validationCache h u \<noteq> Some c \<longrightarrow>
            u = uri d \<and> csc_version c = version d \<and> r = Inr (Some (csc_changeSet c)) \<and>
            (\<exists>e. engine_makeChangeSet env e (uri d) (getText d) = Some (csc_changeSet c)) \<and>
            engineInvocations (trace h') = Suc (engineInvocations (trace h))) \<and>
         (\<forall>cs. r = Inr (Some cs) \<longrightarrow>
            validationCache h' (uri d) = Some \<lparr>csc_version = version d, csc_changeSet = cs\<rparr>) \<and>
         (r = Inr None \<and> engineInvocations (trace h') = Suc (engineInvocations (trace h)) \<longrightarrow>
            validationCache h' (uri d) = None \<and>
            fst (makeChangeSet env h' (Some d)) = Inr None \<and>
            engineInvocations (trace (snd (makeChangeSet env h' (Some d)))) =
              Suc (engineInvocations (trace h')))"
proof (cases "(\<not> enable h \<or> state h = invalid) \<or>
    (\<exists>c. validationCache h (uri d) = Some c \<and> csc_version c = version d)")
  case True
  with assms show ?thesis
    by (auto simp: makeChangeSet_def split: if_splits)
next
  case False
  with assms have M: "makeChangeSet_miss env h d = (r, h')"
    by (auto simp: makeChangeSet_def split: option.splits if_splits)
  note C = makeChangeSet_miss_cache[OF M]
  note F = makeChangeSet_miss_fields[OF M]
  have 1: "\<forall>u c. validationCache h' u = Some c \<and> validationCache h u \<noteq> Some c \<longrightarrow>
            u = uri d \<and> csc_version c = version d \<and> r = Inr (Some (csc_changeSet c)) \<and>
            (\<exists>e. engine_makeChangeSet env e (uri d) (getText d) = Some (csc_changeSet c)) \<and>
            engineInvocations (trace h') = Suc (engineInvocations (trace h))"
  proof (intro allI impI)
    fix u c
    assume A: "validationCache h' u = Some c \<and> validationCache h u \<noteq> Some c"
    with C have u: "u = uri d" by (cases "u = uri d") auto
    with A C show "u = uri d \<and> csc_version c = version d \<and> r = Inr (Some (csc_changeSet c)) \<and>
            (\<exists>e. engine_makeChangeSet env e (uri d) (getText d) = Some (csc_changeSet c)) \<and>
            engineInvocations (trace h') = Suc (engineInvocations (trace h))"
      by (cases r) (auto split: option.splits)
  qed
  have 2: "\<forall>cs. r = Inr (Some cs) \<longrightarrow>
            validationCache h' (uri d) = Some \<lparr>csc_version = version d, csc_changeSet = cs\<rparr>"
    using C by auto
  have 3: "r = Inr None \<and> engineInvocations (trace h') = Suc (engineInvocations (trace h)) \<longrightarrow>
            validationCache h' (uri d) = None \<and>
            fst (makeChangeSet env h' (Some d)) = Inr None \<and>
            engineInvocations (trace (snd (makeChangeSet env h' (Some d)))) =
              Suc (engineInvocations (trace h'))"
  proof
    assume A: "r = Inr None \<and> engineInvocations (trace h') = Suc (engineInvocations (trace h))"
    with C have V: "validationCache h' (uri d) = None" by simp
    from A M have "makeChangeSet_miss env h d = (Inr None, h')" by simp
    from makeChangeSet_miss_null_again[OF this] A
    have N: "fst (makeChangeSet_miss env h' d) = Inr None \<and>
         engineInvocations (trace (snd (makeChangeSet_miss env h' d))) =
           Suc (engineInvocations (trace h'))" by simp
    have "makeChangeSet env h' (Some d) = makeChangeSet_miss env h' d"
      using False F V by (simp add: makeChangeSet_def)
    with V N show "validationCache h' (uri d) = None \<and>
            fst (makeChangeSet env h' (Some d)) = Inr None \<and>
            engineInvocations (trace (snd (makeChangeSet env h' (Some d)))) =
              Suc (engineInvocations (trace h'))" by simp
  qed
  from 1 2 3 show ?thesis by blast
qed

theorem validationCache_entries_witness:
  "validationCache (snd (makeChangeSet test_env (test_handler [''prh.yml'']) (Some quiet_doc)))
     (uri quiet_doc) = None \<and>
   fst (makeChangeSet test_env
          (snd (makeChangeSet test_env (test_handler [''prh.yml'']) (Some quiet_doc)))
          (Some quiet_doc)) = Inr None \<and>
   engineInvocations (trace (snd (makeChangeSet test_env
          (snd (makeChangeSet test_env (test_handler [''prh.yml'']) (Some quiet_doc)))
          (Some quiet_doc)))) = 2 \<and>
   validationCache (snd (makeChangeSet test_env (test_handler [''prh.yml'']) (Some test_doc)))
     (uri test_doc) = Some \<lparr>csc_version = 1, csc_changeSet = \<lparr>diffs = test_diffs\<rparr>\<rparr>"
proof -
  let ?h = "test_handler [''prh.yml'']"
  have E1: "fst (makeChangeSet test_env ?h (Some quiet_doc)) = Inr None"
    by (simp add: scenario_defs)
  have E2: "engineInvocations (trace (snd (makeChangeSet test_env ?h (Some quiet_doc)))) = 1"
    by (simp add: scenario_defs)
  have E3: "engineInvocations (trace ?h) = 0"
    by (simp add: test_handler_def)
  have E4: "fst (makeChangeSet test_env ?h (Some test_doc)) = Inr (Some \<lparr>diffs = test_diffs\<rparr>)"
    by (simp add: scenario_defs)
  have E5: "version test_doc = 1" by (simp add: test_doc_def)
  have H: "makeChangeSet test_env ?h (Some quiet_doc) =
             (Inr None, snd (makeChangeSet test_env ?h (Some quiet_doc)))"
    using E1 by (simp add: prod_eq_iff)
  have K: "makeChangeSet test_env ?h (Some test_doc) =
             (Inr (Some \<lparr>diffs = test_diffs\<rparr>), snd (makeChangeSet test_env ?h (Some test_doc)))"
    using E4 by (simp add: prod_eq_iff)
  from validationCache_entries[OF H] validationCache_entries[OF K] E2 E3 E5
  show ?thesis by simp
qed

section \<open>Validation while disabled or invalid\<close>

text \<open>
  Claim C2. When the enabled flag is false or the state is invalid, \<^verbatim>\<open>makeChangeSet\<close>
  returns null and leaves the handler as it was, trace included, so neither the engine
  nor the rule library is called; \<^verbatim>\<open>validateAndSendDiagnostics\<close> then sends exactly one
  message, the empty diagnostic list for the document.
\<close>

theorem validate_disabled_or_invalid:
  assumes "\<not> enable h \<or> state h = invalid"
  shows "makeChangeSet env h (Some d) = (Inr None, h) \<and>
         makeDiagnostic env h d = (Inr None, h) \<and>
         validateAndSendDiagnostics env h d =
           (Inr (), h\<lparr>trace := trace h @ [SendDiagnostics (uri d) []]\<rparr>)"
  using assms
  by (auto simp: makeChangeSet_def makeDiagnostic_def validateAndSendDiagnostics_def emit_def)

theorem validate_disabled_or_invalid_witness:
  "validateAndSendDiagnostics test_env ((test_handler [''prh.yml''])\<lparr>enable := False\<rparr>) test_doc =
     (Inr (), (test_handler [''prh.yml''])
        \<lparr>enable := False, trace := [SendDiagnostics ''file:///w/doc.md'' []]\<rparr>) \<and>
   validateAndSendDiagnostics test_env ((test_handler [''prh.yml''])\<lparr>state := invalid\<rparr>) test_doc =
     (Inr (), (test_handler [''prh.yml''])
        \<lparr>state := invalid, trace := [SendDiagnostics ''file:///w/doc.md'' []]\<rparr>)"
  using validate_disabled_or_invalid
          [of "(test_handler [''prh.yml''])\<lparr>enable := False\<rparr>" test_env test_doc]
        validate_disabled_or_invalid
          [of "(test_handler [''prh.yml''])\<lparr>state := invalid\<rparr>" test_env test_doc]
  by (simp add: test_handler_def test_doc_def)

section \<open>Resolution of the rule set\<close>

text \<open>
  Claim C9. For a document not covered by configured paths (\<^verbatim>\<open>this.configPaths &&
  this.configPaths[0]\<close> is falsy), whose identity is not a file location or for whose path
  no rule file is found, a validation that reaches the resolution (no cached entry for the
  document's version) returns null without raising. It appends to the trace at most the
  console line "rule file not found", so no message is shown to the user and neither the
  rule library nor the engine is called, and the engine cache is untouched. The
  diagnostics sent for the document are then the empty list.
\<close>

theorem unresolved_rule_set_returns_null:
  assumes "\<not> hasConfigPaths h"
    and "scheme (Uri_parse env (uri d)) \<noteq> ''file'' \<or>
         getRuleFilePath env (path (Uri_parse env (uri d))) = None \<or>
         getRuleFilePath env (path (Uri_parse env (uri d))) = Some []"
    and "\<forall>c. validationCache h (uri d) = Some c \<longrightarrow> csc_version c \<noteq> version d"
  shows "fst (makeChangeSet env h (Some d)) = Inr None \<and>
         trace (snd (makeChangeSet env h (Some d))) =
           trace h @ (if enable h \<and> state h \<noteq> invalid \<and> scheme (Uri_parse env (uri d)) = ''file''
                      then [ConsoleLog (LogRuleFileNotFound (uri d))] else []) \<and>
         engineCache (snd (makeChangeSet env h (Some d))) = engineCache h \<and>
         fst (validateAndSendDiagnostics env h d) = Inr () \<and>
         trace (snd (validateAndSendDiagnostics env h d)) =
           trace (snd (makeChangeSet env h (Some d))) @ [SendDiagnostics (uri d) []]"
proof -
  note M = makeChangeSet_miss_unresolved[OF assms(1,2)]
  have R: "fst (makeChangeSet env h (Some d)) = Inr None"
    using assms(3) M by (auto simp: makeChangeSet_def split: option.splits)
  moreover have "trace (snd (makeChangeSet env h (Some d))) =
           trace h @ (if enable h \<and> state h \<noteq> invalid \<and> scheme (Uri_parse env (uri d)) = ''file''
                      then [ConsoleLog (LogRuleFileNotFound (uri d))] else [])"
    using assms(3) M by (auto simp: makeChangeSet_def split: option.splits)
  moreover have "engineCache (snd (makeChangeSet env h (Some d))) = engineCache h"
    using assms(3) M by (auto simp: makeChangeSet_def split: option.splits)
  moreover have "fst (validateAndSendDiagnostics env h d) = Inr () \<and>
         trace (snd (validateAndSendDiagnostics env h d)) =
           trace (snd (makeChangeSet env h (Some d))) @ [SendDiagnostics (uri d) []]"
    using R
    by (cases "makeChangeSet env h (Some d)")
       (simp add: validateAndSendDiagnostics_def makeDiagnostic_def)
  ultimately show ?thesis by simp
qed

theorem unresolved_rule_set_returns_null_witness:
  "fst (makeChangeSet test_env (test_handler []) (Some quiet_doc)) = Inr None \<and>
   trace (snd (makeChangeSet test_env (test_handler []) (Some quiet_doc))) =
     [ConsoleLog (LogRuleFileNotFound ''file:///w/quiet.md'')] \<and>
   fst (makeChangeSet test_env (test_handler [])
          (Some \<lparr>uri = ''untitled:Untitled-1'', version = 1, getText = ''abc''\<rparr>)) = Inr None \<and>
   trace (snd (makeChangeSet test_env (test_handler [])
          (Some \<lparr>uri = ''untitled:Untitled-1'', version = 1, getText = ''abc''\<rparr>))) = []"
  using unresolved_rule_set_returns_null [of "test_handler []" test_env quiet_doc]
    unresolved_rule_set_returns_null [of "test_handler []" test_env
      "\<lparr>uri = ''untitled:Untitled-1'', version = 1, getText = ''abc''\<rparr>"]
  by (simp add: hasConfigPaths_def test_handler_def test_env_def quiet_doc_def)

section \<open>Construction of the engine\<close>

text \<open>
  Claim C5. The rule library reports a failed construction by throwing an \<^verbatim>\<open>Error\<close>.
  For a validation that reaches the engine cache with the resolved paths \<open>ps\<close> and finds
  no engine there, when \<^verbatim>\<open>fromYAMLFilePaths\<close> throws an \<^verbatim>\<open>Error\<close> with message
  \<open>m\<close>: the error is written to the console and shown to the user with \<open>m\<close> and the
  joined paths, the validation returns null, and the diagnostics path returns normally.
  The engine cache is left as it was, with no engine under the key of \<open>ps\<close>, so the next
  lookup for \<open>ps\<close> calls \<^verbatim>\<open>fromYAMLFilePaths\<close> again, in whatever state the files
  then are.
\<close>

theorem makeChangeSet_construction_failure:
  assumes "enable h" and "state h \<noteq> invalid"
    and "\<forall>c. validationCache h (uri d) = Some c \<longrightarrow> csc_version c \<noteq> version d"
    and "resolveConfigPaths env h d = (Some ps, h2)"
    and "\<forall>e. map_of (engineCache h) (join ''|'' ps) \<noteq> Some (Some e)"
    and "fromYAMLFilePaths env ps = Inl (ErrorInstance m)"
  shows "makeChangeSet env h (Some d) =
           (Inr None,
            h2\<lparr>validationCache := (validationCache h)(uri d := None),
               trace := trace h2 @ [Call_fromYAMLFilePaths ps, ConsoleError (ErrorInstance m),
                                   ShowErrorMessage m (join '' ,'' ps)]\<rparr>) \<and>
         engineCache (snd (makeChangeSet env h (Some d))) = engineCache h \<and>
         fst (validateAndSendDiagnostics env h d) = Inr () \<and>
         (\<forall>env'. take (Suc (length (trace (snd (makeChangeSet env h (Some d))))))
                   (trace (snd (lookupEngine env' (snd (makeChangeSet env h (Some d))) ps))) =
                 trace (snd (makeChangeSet env h (Some d))) @ [Call_fromYAMLFilePaths ps])"
proof -
  let ?v = "(validationCache h)(uri d := None)"
  let ?k = "h2\<lparr>validationCache := ?v,
               trace := trace h2 @ [Call_fromYAMLFilePaths ps, ConsoleError (ErrorInstance m),
                                   ShowErrorMessage m (join '' ,'' ps)]\<rparr>"
  note F = resolveConfigPaths_fields[OF assms(4)]
  have R: "resolveConfigPaths env (h\<lparr>validationCache := ?v\<rparr>) d = (Some ps, h2\<lparr>validationCache := ?v\<rparr>)"
    using assms(4) by (simp add: resolveConfigPaths_validationCache)
  have L: "lookupEngine env (h2\<lparr>validationCache := ?v\<rparr>) ps = (None, ?k)"
    using assms(5,6) F(4)
    by (cases "map_of (engineCache h) (join ''|'' ps)")
       (auto simp: lookupEngine_def Let_def emit_def split: option.splits)
  have M: "makeChangeSet_miss env h d = (Inr None, ?k)"
    using R L by (simp add: makeChangeSet_miss_def)
  have 1: "makeChangeSet env h (Some d) = (Inr None, ?k)"
    using assms(1-3) M by (auto simp: makeChangeSet_def split: option.splits)
  have 2: "engineCache ?k = engineCache h" using F(4) by simp
  have 3: "fst (validateAndSendDiagnostics env h d) = Inr ()"
    using 1 by (simp add: validateAndSendDiagnostics_def makeDiagnostic_def)
  have 4: "take (Suc (length (trace ?k))) (trace (snd (lookupEngine env' ?k ps))) =
                 trace ?k @ [Call_fromYAMLFilePaths ps]" for env'
    using assms(5) F(4)
    by (cases "map_of (engineCache h) (join ''|'' ps)")
       (auto simp: lookupEngine_def Let_def emit_def split: option.splits sum.splits thrown.splits)
  from 1 2 3 4 show ?thesis by simp
qed

theorem makeChangeSet_construction_failure_witness:
  "makeChangeSet test_env (test_handler [''broken.yml'']) (Some test_doc) =
     (Inr None,
      (test_handler [''broken.yml''])
        \<lparr>trace := [Call_fromYAMLFilePaths [''broken.yml''], ConsoleError (ErrorInstance ''bad yaml''),
                   ShowErrorMessage ''bad yaml'' ''broken.yml'']\<rparr>) \<and>
   fst (validateAndSendDiagnostics test_env (test_handler [''broken.yml'']) test_doc) = Inr ()"
proof -
  have R: "resolveConfigPaths test_env (test_handler [''broken.yml'']) test_doc =
             (Some [''broken.yml''], test_handler [''broken.yml''])"
    by (simp add: resolveConfigPaths_def hasConfigPaths_def test_handler_def)
  have A: "enable (test_handler [''broken.yml''])" "state (test_handler [''broken.yml'']) \<noteq> invalid"
    "\<forall>c. validationCache (test_handler [''broken.yml'']) (uri test_doc) = Some c \<longrightarrow>
         csc_version c \<noteq> version test_doc"
    "\<forall>e. map_of (engineCache (test_handler [''broken.yml''])) (join ''|'' [''broken.yml'']) \<noteq>
         Some (Some e)"
    "fromYAMLFilePaths test_env [''broken.yml''] = Inl (ErrorInstance ''bad yaml'')"
    by (simp_all add: test_handler_def test_env_def)
  from makeChangeSet_construction_failure[OF A(1-3) R A(4,5)]
  show ?thesis by (simp add: test_handler_def)
qed

text \<open>
  The other branch of the catch block, for a thrown value that is not an \<^verbatim>\<open>Error\<close>:
  the value is written to the console, undefined is stored under the key of the paths,
  and reading \<^verbatim>\<open>engine.makeChangeSet\<close> raises.
\<close>

lemma makeChangeSet_construction_NonError:
  assumes "enable h" and "state h \<noteq> invalid"
    and "\<forall>c. validationCache h (uri d) = Some c \<longrightarrow> csc_version c \<noteq> version d"
    and "hasConfigPaths h" and "configPaths h = Some ps"
    and "\<forall>e. map_of (engineCache h) (join ''|'' ps) \<noteq> Some (Some e)"
    and "fromYAMLFilePaths env ps = Inl (NonError v)"
  shows "makeChangeSet env h (Some d) =
           (Inl TypeError,
            h\<lparr>engineCache := AList.update (join ''|'' ps) None (engineCache h),
              validationCache := (validationCache h)(uri d := None),
              trace := trace h @ [Call_fromYAMLFilePaths ps, ConsoleError (NonError v)]\<rparr>) \<and>
         fst (onDidChangeContent env h d) = Inl TypeError"
proof -
  have L: "lookupEngine env (h\<lparr>validationCache := (validationCache h)(uri d := None)\<rparr>) ps =
      (Some None, h\<lparr>engineCache := AList.update (join ''|'' ps) None (engineCache h),
              validationCache := (validationCache h)(uri d := None),
              trace := trace h @ [Call_fromYAMLFilePaths ps, ConsoleError (NonError v)]\<rparr>)"
    using assms(6,7)
    by (cases "map_of (engineCache h) (join ''|'' ps)")
       (auto simp: lookupEngine_def Let_def emit_def split: option.splits)
  have M: "makeChangeSet_miss env h d =
           (Inl TypeError,
            h\<lparr>engineCache := AList.update (join ''|'' ps) None (engineCache h),
              validationCache := (validationCache h)(uri d := None),
              trace := trace h @ [Call_fromYAMLFilePaths ps, ConsoleError (NonError v)]\<rparr>)"
    using assms(4,5) L by (simp add: makeChangeSet_miss_def resolveConfigPaths_def)
  have R: "makeChangeSet env h (Some d) =
           (Inl TypeError,
            h\<lparr>engineCache := AList.update (join ''|'' ps) None (engineCache h),
              validationCache := (validationCache h)(uri d := None),
              trace := trace h @ [Call_fromYAMLFilePaths ps, ConsoleError (NonError v)]\<rparr>)"
    using assms(1-3) M by (auto simp: makeChangeSet_def split: option.splits)
  then show ?thesis
    by (simp add: onDidChangeContent_def validateAndSendDiagnostics_def makeDiagnostic_def)
qed

section \<open>Checking the configuration\<close>

text \<open>
  Claim C8, as amended. With \<open>ps\<close> the configured paths: when every path exists,
  \<^verbatim>\<open>checkConfig\<close> sets the state to valid and writes only its console line. When
  \<open>p\<close> is the first path that does not exist, it sets the state to invalid, writes
  the console lines, shows one warning naming \<open>p\<close> unless the state was already
  invalid, in which case it shows none, and sends the empty diagnostic list for every open
  document.
\<close>

theorem checkConfig_outcome:
  assumes "ps = (case configPaths h of None \<Rightarrow> [] | Some qs \<Rightarrow> qs)"
  shows "((\<forall>p\<in>set ps. existsSync env p) \<longrightarrow>
            state (checkConfig env h) = valid \<and>
            trace (checkConfig env h) = trace h @
              [ConsoleLog (LogLoadConfig (if join '', '' ps = [] then ''implicit'' else join '', '' ps))]) \<and>
         (\<forall>good p rest.
            ps = good @ p # rest \<and> (\<forall>q\<in>set good. existsSync env q) \<and> \<not> existsSync env p \<longrightarrow>
            state (checkConfig env h) = invalid \<and>
            trace (checkConfig env h) = trace h @
              [ConsoleLog (LogLoadConfig (if join '', '' ps = [] then ''implicit'' else join '', '' ps)),
               ConsoleLog (LogRuleFileNotExists p)] @
              (if state h = invalid then [] else [ShowWarningMessage p]) @
              map (\<lambda>d. SendDiagnostics (uri d) []) (documents h))"
  using checkConfig_all_exist[OF assms, of env] checkConfig_missing[OF assms, of _ _ _ env]
  by simp

theorem checkConfig_outcome_witness:
  "state (checkConfig test_env (test_handler [''prh.yml''])) = valid \<and>
   trace (checkConfig test_env (test_handler [''prh.yml''])) =
     [ConsoleLog (LogLoadConfig ''prh.yml'')] \<and>
   state (checkConfig test_env (test_handler [''prh.yml'', ''rules.yml''])) = invalid \<and>
   trace (checkConfig test_env (test_handler [''prh.yml'', ''rules.yml''])) =
     [ConsoleLog (LogLoadConfig ''prh.yml, rules.yml''),
      ConsoleLog (LogRuleFileNotExists ''rules.yml''),
      ShowWarningMessage ''rules.yml'',
      SendDiagnostics ''file:///w/doc.md'' [], SendDiagnostics ''file:///w/quiet.md'' []]"
proof -
  have A: "[''prh.yml''] = (case configPaths (test_handler [''prh.yml'']) of None \<Rightarrow> [] | Some qs \<Rightarrow> qs)"
    by (simp add: test_handler_def)
  have B: "[''prh.yml'', ''rules.yml''] =
      (case configPaths (test_handler [''prh.yml'', ''rules.yml'']) of None \<Rightarrow> [] | Some qs \<Rightarrow> qs)"
    by (simp add: test_handler_def)
  have C: "\<forall>p\<in>set [''prh.yml'']. existsSync test_env p"
    by (simp add: test_env_def)
  have D: "[''prh.yml'', ''rules.yml''] = [''prh.yml''] @ ''rules.yml'' # [] \<and>
           (\<forall>q\<in>set [''prh.yml'']. existsSync test_env q) \<and> \<not> existsSync test_env ''rules.yml''"
    by (simp add: test_env_def)
  from checkConfig_outcome[OF A, of test_env] C
  have 1: "state (checkConfig test_env (test_handler [''prh.yml''])) = valid \<and>
   trace (checkConfig test_env (test_handler [''prh.yml''])) =
     [ConsoleLog (LogLoadConfig ''prh.yml'')]"
    by (simp add: test_handler_def)
  from checkConfig_outcome[OF B, of test_env] D
  have "state (checkConfig test_env (test_handler [''prh.yml'', ''rules.yml''])) = invalid \<and>
            trace (checkConfig test_env (test_handler [''prh.yml'', ''rules.yml''])) =
              trace (test_handler [''prh.yml'', ''rules.yml'']) @
              [ConsoleLog (LogLoadConfig (if join '', '' [''prh.yml'', ''rules.yml''] = [] then ''implicit''
                   else join '', '' [''prh.yml'', ''rules.yml''])),
               ConsoleLog (LogRuleFileNotExists ''rules.yml'')] @
              (if state (test_handler [''prh.yml'', ''rules.yml'']) = invalid then []
               else [ShowWarningMessage ''rules.yml'']) @
              map (\<lambda>d. SendDiagnostics (uri d) []) (documents (test_handler [''prh.yml'', ''rules.yml'']))"
    by blast
  then have 2: "state (checkConfig test_env (test_handler [''prh.yml'', ''rules.yml''])) = invalid \<and>
   trace (checkConfig test_env (test_handler [''prh.yml'', ''rules.yml''])) =
     [ConsoleLog (LogLoadConfig ''prh.yml, rules.yml''),
      ConsoleLog (LogRuleFileNotExists ''rules.yml''),
      ShowWarningMessage ''rules.yml'',
      SendDiagnostics ''file:///w/doc.md'' [], SendDiagnostics ''file:///w/quiet.md'' []]"
    by (simp add: test_handler_def test_doc_def quiet_doc_def)
  from 1 2 show ?thesis by simp
qed

text \<open>
  Claim C8 as stated fails when the state is already invalid: the first configuration
  change with the missing path \<open>rules.yml\<close> shows the warning, and checking the same
  configuration again finds the path missing and shows no warning.
\<close>

theorem second_missing_path_check_no_warning:
  "trace (snd (onDidChangeConfiguration test_env (test_handler []) rules_settings)) =
     [ConsoleLog (LogOnDidChangeConfiguration rules_settings),
      ConsoleLog (LogLoadConfig ''rules.yml''),
      ConsoleLog (LogRuleFileNotExists ''rules.yml''),
      ShowWarningMessage ''rules.yml'',
      SendDiagnostics ''file:///w/doc.md'' [], SendDiagnostics ''file:///w/quiet.md'' [],
      SendDiagnostics ''file:///w/doc.md'' [], SendDiagnostics ''file:///w/quiet.md'' []] \<and>
   trace (checkConfig test_env
            (snd (onDidChangeConfiguration test_env (test_handler []) rules_settings))) =
     trace (snd (onDidChangeConfiguration test_env (test_handler []) rules_settings)) @
     [ConsoleLog (LogLoadConfig ''rules.yml''),
      ConsoleLog (LogRuleFileNotExists ''rules.yml''),
      SendDiagnostics ''file:///w/doc.md'' [], SendDiagnostics ''file:///w/quiet.md'' []]"
  by (simp add: onDidChangeConfiguration_def checkConfig_def Let_def invalidateCache_def emit_def
      foldl_clearDiagnostics validateAndSendDiagnostics_def makeDiagnostic_def makeChangeSet_def
      test_handler_def test_env_def test_doc_def quiet_doc_def rules_settings_def)

text \<open>
  Claim C4. \<^verbatim>\<open>checkConfig\<close> leaves both caches empty. A configuration change
  revalidates the open documents from the state \<^verbatim>\<open>checkConfig\<close> has left, and its
  outcome is the same whatever the two caches held before the event. A watched-file
  change that matches a rule path of a cached engine does the same: its outcome is that of
  checking the configuration and revalidating from a handler whose caches have been
  replaced by any others, so nothing cached before the event is used after it.
\<close>

theorem config_change_discards_caches:
  "engineCache (checkConfig env h) = [] \<and> validationCache (checkConfig env h) = Map.empty \<and>
   onDidChangeConfiguration env h s =
     forEach_validate env
       (checkConfig env
          ((emit (ConsoleLog (LogOnDidChangeConfiguration s)) h)
             \<lparr>enable := (settings_enable s = Some True),
              configPaths := Some (case configFiles s of None \<Rightarrow> [] | Some fs \<Rightarrow> fs)\<rparr>))
       (documents h) \<and>
   onDidChangeConfiguration env (h\<lparr>engineCache := ec, validationCache := vc\<rparr>) s =
     onDidChangeConfiguration env h s \<and>
   (\<forall>p rulePath ms. watchedMatches env h changes = (p, rulePath) # ms \<longrightarrow>
      onDidChangeWatchedFiles env h changes =
        forEach_validate env
          (checkConfig env
             ((emit (ConsoleLog (LogMatched p rulePath))
                (emit (ConsoleLog (LogOnDidChangeWatchedFiles changes)) h))
                \<lparr>engineCache := ec, validationCache := vc\<rparr>))
          (documents h))"
proof -
  have 1: "onDidChangeConfiguration env h s =
     forEach_validate env
       (checkConfig env
          ((emit (ConsoleLog (LogOnDidChangeConfiguration s)) h)
             \<lparr>enable := (settings_enable s = Some True),
              configPaths := Some (case configFiles s of None \<Rightarrow> [] | Some fs \<Rightarrow> fs)\<rparr>))
       (documents h)"
    by (simp add: onDidChangeConfiguration_def Let_def checkConfig_documents)
  have "(emit (ConsoleLog (LogOnDidChangeConfiguration s)) (h\<lparr>engineCache := ec, validationCache := vc\<rparr>))
           \<lparr>enable := (settings_enable s = Some True),
            configPaths := Some (case configFiles s of None \<Rightarrow> [] | Some fs \<Rightarrow> fs)\<rparr> =
        ((emit (ConsoleLog (LogOnDidChangeConfiguration s)) h)
           \<lparr>enable := (settings_enable s = Some True),
            configPaths := Some (case configFiles s of None \<Rightarrow> [] | Some fs \<Rightarrow> fs)\<rparr>)
           \<lparr>engineCache := ec, validationCache := vc\<rparr>"
    (is "?l = ?r")
    by (cases h) (simp add: emit_def)
  then have "checkConfig env ?l = checkConfig env
        ((emit (ConsoleLog (LogOnDidChangeConfiguration s)) h)
           \<lparr>enable := (settings_enable s = Some True),
            configPaths := Some (case configFiles s of None \<Rightarrow> [] | Some fs \<Rightarrow> fs)\<rparr>)"
    by (simp only: checkConfig_ignores_caches)
  then have 2: "onDidChangeConfiguration env (h\<lparr>engineCache := ec, validationCache := vc\<rparr>) s =
     onDidChangeConfiguration env h s"
    by (simp only: onDidChangeConfiguration_def Let_def checkConfig_documents)
       (simp add: emit_def)
  have W: "watchedMatches env (emit ev h) changes = watchedMatches env h changes" for ev
    by (simp add: watchedMatches_def)
  have 3: "\<forall>p rulePath ms. watchedMatches env h changes = (p, rulePath) # ms \<longrightarrow>
      onDidChangeWatchedFiles env h changes =
        forEach_validate env
          (checkConfig env
             ((emit (ConsoleLog (LogMatched p rulePath))
                (emit (ConsoleLog (LogOnDidChangeWatchedFiles changes)) h))
                \<lparr>engineCache := ec, validationCache := vc\<rparr>))
          (documents h)"
    by (simp add: onDidChangeWatchedFiles_def Let_def W checkConfig_documents
          checkConfig_ignores_caches)
  from checkConfig_caches[of env h] 1 2 3 show ?thesis by blast
qed

theorem config_change_discards_caches_witness:
  "onDidChangeWatchedFiles test_env
     ((test_handler [''prh.yml''])\<lparr>engineCache := [(''prh.yml'', Some 0)]\<rparr>) [''file:///w/prh.yml''] =
   forEach_validate test_env
     (checkConfig test_env
        ((emit (ConsoleLog (LogMatched ''/w/prh.yml'' ''prh.yml''))
           (emit (ConsoleLog (LogOnDidChangeWatchedFiles [''file:///w/prh.yml'']))
              ((test_handler [''prh.yml''])\<lparr>engineCache := [(''prh.yml'', Some 0)]\<rparr>)))
           \<lparr>engineCache := [], validationCache := Map.empty\<rparr>))
     (documents ((test_handler [''prh.yml''])\<lparr>engineCache := [(''prh.yml'', Some 0)]\<rparr>))"
proof -
  have M: "watchedMatches test_env
      ((test_handler [''prh.yml''])\<lparr>engineCache := [(''prh.yml'', Some 0)]\<rparr>) [''file:///w/prh.yml''] =
      (''/w/prh.yml'', ''prh.yml'') # []"
    by (simp add: watchedMatches_def test_handler_def test_env_def endsWith_def)
  from config_change_discards_caches
         [of test_env "(test_handler [''prh.yml''])\<lparr>engineCache := [(''prh.yml'', Some 0)]\<rparr>"
             _ _ _ "[''file:///w/prh.yml'']"] M
  show ?thesis by blast
qed

section \<open>Code actions\<close>



section \<open>Commands\<close>

text \<open>
  Claim C3, as amended. For a replace command whose target document is open: when the
  expected version differs from the document's version the call returns normally and writes two
  console lines (the parameters and the mismatch) and nothing else, so no edit is
  submitted; when the versions agree it submits one \<^verbatim>\<open>applyEdit\<close> for that document
  and version with the single text edit of the command.
\<close>

theorem executeReplace_version_guard:
  assumes "documents_get (documents h) (rcp_uri p) = Some d"
  shows "(rcp_version p \<noteq> version d \<longrightarrow>
            executeReplace h (Some (p # rest)) =
              (Inr (), h\<lparr>trace := trace h @
                 [ConsoleLog (LogReplaceParams p),
                  ConsoleLog (LogVersionMismatch (rcp_version p) (version d))]\<rparr>)) \<and>
         (rcp_version p = version d \<longrightarrow>
            executeReplace h (Some (p # rest)) =
              (Inr (), h\<lparr>trace := trace h @
                 [ConsoleLog (LogReplaceParams p),
                  ApplyEdit (rcp_uri p) (version d) [textEdit p]]\<rparr>))"
  using assms documents_get_uri[OF assms]
  by (simp add: executeReplace_def emit_def)

theorem executeReplace_version_guard_witness:
  "executeReplace (test_handler []) (Some [test_replace 2]) =
     (Inr (), (test_handler [])\<lparr>trace :=
        [ConsoleLog (LogReplaceParams (test_replace 2)), ConsoleLog (LogVersionMismatch 2 1)]\<rparr>) \<and>
   executeReplace (test_handler []) (Some [test_replace 1]) =
     (Inr (), (test_handler [])\<lparr>trace :=
        [ConsoleLog (LogReplaceParams (test_replace 1)),
         ApplyEdit ''file:///w/doc.md'' 1 [textEdit (test_replace 1)]]\<rparr>)"
  using executeReplace_version_guard [of "test_handler []" "test_replace 2" test_doc "[]"]
        executeReplace_version_guard [of "test_handler []" "test_replace 1" test_doc "[]"]
  by (simp add: test_handler_def test_doc_def test_replace_def documents_get_def)

text \<open>
  Claim C3 as stated fails for a command whose target document is not open:
  \<^verbatim>\<open>documents.get\<close> answers undefined, which no handler checks, and reading its
  version raises after the parameters have been logged.
\<close>

theorem executeReplace_closed_document_raises:
  "executeReplace (test_handler []) (Some [closed_replace]) =
     (Inl TypeError, (test_handler [])\<lparr>trace := [ConsoleLog (LogReplaceParams closed_replace)]\<rparr>)"
  by (simp add: executeReplace_def documents_get_def emit_def closed_replace_def test_replace_def
      test_handler_def test_doc_def quiet_doc_def)

text \<open>
  Claim C6. For an applyAllQuickFixes command naming an open document, the document found
  under that name is validated; when the validation returns null nothing is submitted,
  and when it returns a change set exactly one \<^verbatim>\<open>applyEdit\<close> is submitted, for the
  document's name and current version, holding one edit per diff in the order of the
  change set: the edit of a diff spans the positions of its \<open>index\<close> and \<open>tailIndex\<close>
  and carries its new text, or the placeholder when that is null or empty. The change
  sets of the rule library list their diffs in ascending order of \<open>index\<close>; with that
  order and a monotone \<^verbatim>\<open>positionAt\<close> the edits begin at ascending positions.
\<close>

theorem applyAllQuickFixes_batch:
  assumes "u \<noteq> []"
    and "documents_get (documents h) u = Some d"
    and "makeChangeSet env h (Some d) = (Inr r, h')"
  shows "(r = None \<longrightarrow> executeApplyAllQuickFixes env h (Some (u # rest)) = (Inr (), h')) \<and>
         (\<forall>cs. r = Some cs \<longrightarrow>
            executeApplyAllQuickFixes env h (Some (u # rest)) =
              (Inr (), h'\<lparr>trace := trace h' @
                 [ApplyEdit u (version d) (map (getTextEditFromDiff env d) (diffs cs))]\<rparr>) \<and>
            map (range_start \<circ> edit_range) (map (getTextEditFromDiff env d) (diffs cs)) =
              map (positionAt env d \<circ> index) (diffs cs) \<and>
            map (range_end \<circ> edit_range) (map (getTextEditFromDiff env d) (diffs cs)) =
              map (positionAt env d \<circ> tailIndex) (diffs cs) \<and>
            map edit_newText (map (getTextEditFromDiff env d) (diffs cs)) =
              map (\<lambda>df. case newText df of None \<Rightarrow> ''??''
                         | Some t \<Rightarrow> if t = [] then ''??'' else t) (diffs cs) \<and>
            (sorted (map index (diffs cs)) \<and>
             (\<forall>i j. i \<le> j \<longrightarrow> position_le (positionAt env d i) (positionAt env d j)) \<longrightarrow>
             sorted_wrt position_le
               (map (range_start \<circ> edit_range) (map (getTextEditFromDiff env d) (diffs cs)))))"
proof -
  have S: "sorted_wrt position_le (map (range_start \<circ> edit_range) (map (getTextEditFromDiff env d) ds))"
    if "sorted (map index ds)"
      and "\<forall>i j. i \<le> j \<longrightarrow> position_le (positionAt env d i) (positionAt env d j)" for ds
    using that
    by (induction ds) (auto simp: getTextEditFromDiff_def)
  show ?thesis
    using assms documents_get_uri[OF assms(2)] S
    by (auto simp: executeApplyAllQuickFixes_def emit_def getTextEditFromDiff_def newTextOr_def)
qed

theorem applyAllQuickFixes_batch_witness:
  "executeApplyAllQuickFixes test_env (test_handler [''prh.yml'']) (Some [''file:///w/doc.md'']) =
     (Inr (), (snd (makeChangeSet test_env (test_handler [''prh.yml'']) (Some test_doc)))
        \<lparr>trace := trace (snd (makeChangeSet test_env (test_handler [''prh.yml'']) (Some test_doc))) @
           [ApplyEdit ''file:///w/doc.md'' 1
              [\<lparr>edit_range = \<lparr>range_start = \<lparr>line = 0, character = 0\<rparr>,
                              range_end = \<lparr>line = 0, character = 3\<rparr>\<rparr>,
                edit_newText = ''ABC''\<rparr>,
               \<lparr>edit_range = \<lparr>range_start = \<lparr>line = 0, character = 10\<rparr>,
                              range_end = \<lparr>line = 0, character = 15\<rparr>\<rparr>,
                edit_newText = ''??''\<rparr>]]\<rparr>) \<and>
   sorted_wrt position_le
     (map (range_start \<circ> edit_range) (map (getTextEditFromDiff test_env test_doc) test_diffs)) \<and>
   executeApplyAllQuickFixes test_env ((test_handler [''prh.yml''])\<lparr>enable := False\<rparr>)
       (Some [''file:///w/doc.md'']) =
     (Inr (), (test_handler [''prh.yml''])\<lparr>enable := False\<rparr>)"
proof -
  let ?h = "test_handler [''prh.yml'']"
  have U: "''file:///w/doc.md'' \<noteq> []" by simp
  have G: "documents_get (documents ?h) ''file:///w/doc.md'' = Some test_doc"
    by (simp add: documents_get_def test_handler_def test_doc_def)
  have G': "documents_get (documents (?h\<lparr>enable := False\<rparr>)) ''file:///w/doc.md'' = Some test_doc"
    by (simp add: documents_get_def test_handler_def test_doc_def)
  have H: "makeChangeSet test_env ?h (Some test_doc) =
     (Inr (Some \<lparr>diffs = test_diffs\<rparr>), snd (makeChangeSet test_env ?h (Some test_doc)))"
    by (simp add: scenario_defs)
  have H': "makeChangeSet test_env (?h\<lparr>enable := False\<rparr>) (Some test_doc) =
     (Inr None, ?h\<lparr>enable := False\<rparr>)"
    by (simp add: makeChangeSet_def)
  have S: "sorted (map index (diffs \<lparr>diffs = test_diffs\<rparr>)) \<and>
    (\<forall>i j. i \<le> j \<longrightarrow> position_le (positionAt test_env test_doc i) (positionAt test_env test_doc j))"
    by (simp add: test_diffs_def test_env_def position_le_def)
  from applyAllQuickFixes_batch[OF U G H, of "[]"] S
  have 1: "executeApplyAllQuickFixes test_env ?h (Some [''file:///w/doc.md'']) =
              (Inr (), (snd (makeChangeSet test_env ?h (Some test_doc)))
                 \<lparr>trace := trace (snd (makeChangeSet test_env ?h (Some test_doc))) @
                 [ApplyEdit ''file:///w/doc.md'' (version test_doc)
                    (map (getTextEditFromDiff test_env test_doc) (diffs \<lparr>diffs = test_diffs\<rparr>))]\<rparr>) \<and>
      sorted_wrt position_le
               (map (range_start \<circ> edit_range)
                  (map (getTextEditFromDiff test_env test_doc) (diffs \<lparr>diffs = test_diffs\<rparr>)))"
    by blast
  from applyAllQuickFixes_batch[OF U G' H', of "[]"]
  have 2: "executeApplyAllQuickFixes test_env (?h\<lparr>enable := False\<rparr>) (Some [''file:///w/doc.md'']) =
     (Inr (), ?h\<lparr>enable := False\<rparr>)"
    by blast
  from 1 2 show ?thesis
    by (simp add: test_diffs_def test_env_def test_doc_def getTextEditFromDiff_def newTextOr_def)
qed

end
